theory Spec2Isabelle
  imports Complex_Main "HOL-Library.Word" "HOL-Library.Finite_Map"
begin

unbundle bit_operations_syntax

section \<open>The cash ledger of opic.go\<close>

text \<open>
  The ledger is the struct \<^verbatim>\<open>OPIC\<close>: three Go maps keyed by \<^verbatim>\<open>uint64\<close> and
  a dirty flag.  Go maps are finite, so they are finite maps here.  The mutex is left
  out: every method holds it for its whole body, so a method is one atomic state
  transformer.

  Cash amounts are \<^verbatim>\<open>float64\<close> in the source.  They are modelled in exact arithmetic
  (\<^typ>\<open>real\<close>): rounding, overflow and the non-finite values are outside the model,
  and every statement below about sums is a statement "up to floating-point rounding".

  A \<^verbatim>\<open>time.Time\<close> is an instant, modelled as the number of nanoseconds since the Unix
  epoch (an unbounded integer; locations and monotonic clock readings are left out).
  A \<^verbatim>\<open>time.Duration\<close> is an \<^verbatim>\<open>int64\<close> count of nanoseconds.
\<close>

type_synonym Time = int
type_synonym Duration = int

record OPIC =
  dirty :: bool
  current :: "(64 word, real) fmap"
  cleared :: "(64 word, Time) fmap"
  history :: "(64 word, real) fmap"

text \<open>\<^verbatim>\<open>New()\<close>: three empty maps, the dirty flag at its zero value.\<close>

definition New :: OPIC where
  "New = \<lparr>dirty = False, current = fmempty, cleared = fmempty, history = fmempty\<rparr>"

text \<open>
  Reading a Go map at an absent key gives the zero value of the value type:
  \<^verbatim>\<open>0\<close> for a \<^verbatim>\<open>float64\<close>, the zero \<^verbatim>\<open>Time\<close> (January 1, year 1, 00:00:00 UTC,
  which is 62135596800 seconds before the Unix epoch) for a time.
\<close>

definition cash_at :: "(64 word, real) fmap \<Rightarrow> 64 word \<Rightarrow> real" where
  "cash_at m k = (case fmlookup m k of None \<Rightarrow> 0 | Some v \<Rightarrow> v)"

definition zeroTime :: Time where
  "zeroTime = - 62135596800 * 1000000000"

definition time_at :: "(64 word, Time) fmap \<Rightarrow> 64 word \<Rightarrow> Time" where
  "time_at m k = (case fmlookup m k of None \<Rightarrow> zeroTime | Some v \<Rightarrow> v)"

text \<open>\<^verbatim>\<open>len(m)\<close> of a Go map: the number of its keys.\<close>

definition len :: "(64 word, 'v) fmap \<Rightarrow> nat" where
  "len m = card (fmdom' m)"

subsection \<open>Hashing\<close>

text \<open>
  \<^verbatim>\<open>fnvHash\<close> feeds the bytes of the string to \<^verbatim>\<open>fnv.New64()\<close>, the 64-bit FNV-1
  hash of Go's standard library: start from the offset basis; for every byte, multiply
  by the prime (modulo \<open>2^64\<close>), then xor the byte in.
\<close>

definition offset64 :: "64 word" where
  "offset64 = 14695981039346656037"

definition prime64 :: "64 word" where
  "prime64 = 1099511628211"

definition fnvHash :: "string \<Rightarrow> 64 word" where
  "fnvHash s = foldl (\<lambda>h c. (h * prime64) XOR of_char c) offset64 s"

subsection \<open>Initialise\<close>

text \<open>
  \<^verbatim>\<open>InitialiseN\<close>: \<^verbatim>\<open>n := cash / float64(len(in))\<close>, then \<^verbatim>\<open>o.current[u] = n\<close> for every
  \<^verbatim>\<open>u\<close> of \<^verbatim>\<open>in\<close>, then the dirty flag.  The function has no result.  For an empty
  \<^verbatim>\<open>in\<close> the quotient (non-finite in Go) is computed and never stored.
\<close>

definition InitialiseN :: "real \<Rightarrow> 64 word list \<Rightarrow> OPIC \<Rightarrow> OPIC" where
  "InitialiseN cash ins st =
     (let n = cash / real (length ins);
          st1 = st\<lparr>current := foldl (\<lambda>m u. fmupd u n m) (current st) ins\<rparr>
      in st1\<lparr>dirty := True\<rparr>)"

definition Initialise :: "real \<Rightarrow> string list \<Rightarrow> OPIC \<Rightarrow> OPIC" where
  "Initialise cash ins st = InitialiseN cash (map fnvHash ins) st"

subsection \<open>Distribute\<close>

text \<open>
  The loop over \<^verbatim>\<open>out\<close>: every output is credited one share, and an output with no
  cleared time gets \<^verbatim>\<open>time.Now()\<close>.  The wall clock is an input of the model:
  \<open>clock i\<close> is what \<^verbatim>\<open>time.Now()\<close> returns in iteration \<open>i\<close>.
\<close>

fun Distribute_loop :: "(nat \<Rightarrow> Time) \<Rightarrow> real \<Rightarrow> nat \<Rightarrow> string list \<Rightarrow> OPIC \<Rightarrow> OPIC" where
  "Distribute_loop clock share i [] st = st"
| "Distribute_loop clock share i (s # ss) st =
     (let outH = fnvHash s;
          st1 = st\<lparr>current := fmupd outH (cash_at (current st) outH + share) (current st)\<rparr>;
          st2 = (if outH \<in> fmdom' (cleared st1) then st1
                 else st1\<lparr>cleared := fmupd outH (clock i) (cleared st1)\<rparr>)
      in Distribute_loop clock share (Suc i) ss st2)"

text \<open>
  The first half of \<^verbatim>\<open>Distribute\<close>: the share \<^verbatim>\<open>c/float64(len(out)+1)\<close> goes to the
  virtual entry (key 0) and to every output.
\<close>

definition Distribute_credit :: "(nat \<Rightarrow> Time) \<Rightarrow> string \<Rightarrow> string list \<Rightarrow> OPIC \<Rightarrow> OPIC" where
  "Distribute_credit clock source out st =
     (let c = cash_at (current st) (fnvHash source);
          st1 = st\<lparr>current :=
                  fmupd 0 (cash_at (current st) 0 + c / real (length out + 1)) (current st)\<rparr>
      in Distribute_loop clock (c / real (length out + 1)) 0 out st1)"

text \<open>
  The skimmed amount \<^verbatim>\<open>d := o.current[0] / float64(len(o.current)+1)\<close>, read in the
  state the credits have produced.
\<close>

definition skim :: "OPIC \<Rightarrow> real" where
  "skim st = cash_at (current st) 0 / real (len (current st) + 1)"

text \<open>
  \<^verbatim>\<open>Distribute\<close> itself; the result is the returned \<^verbatim>\<open>c\<close> and the new state.
\<close>

definition Distribute ::
  "(nat \<Rightarrow> Time) \<Rightarrow> string \<Rightarrow> string list \<Rightarrow> Time \<Rightarrow> OPIC \<Rightarrow> real \<times> OPIC" where
  "Distribute clock source out t st =
     (let sourceH = fnvHash source;
          c = cash_at (current st) sourceH;
          st2 = Distribute_credit clock source out st;
          d = skim st2;
          st3 = st2\<lparr>current := fmupd 0 (cash_at (current st2) 0 - d) (current st2)\<rparr>;
          st4 = st3\<lparr>current := fmupd sourceH d (current st3)\<rparr>;
          st5 = st4\<lparr>cleared := fmupd sourceH t (cleared st4)\<rparr>;
          st6 = st5\<lparr>history := fmupd sourceH c (history st5)\<rparr>
      in (c, st6\<lparr>dirty := True\<rparr>))"

subsection \<open>Finalise, Get, Sums\<close>

definition Finalise :: "string list \<Rightarrow> OPIC \<Rightarrow> OPIC" where
  "Finalise ins st =
     (foldl (\<lambda>st s. let inH = fnvHash s;
                        st1 = st\<lparr>history := fmupd inH (cash_at (current st) inH) (history st)\<rparr>
                    in st1\<lparr>current := fmupd inH 0 (current st1)\<rparr>) st ins)\<lparr>dirty := True\<rparr>"

definition GetN :: "OPIC \<Rightarrow> 64 word \<Rightarrow> real \<times> real \<times> Time" where
  "GetN st v = (cash_at (history st) v, cash_at (current st) v, time_at (cleared st) v)"

definition Get :: "OPIC \<Rightarrow> string \<Rightarrow> real \<times> real \<times> Time" where
  "Get st s = GetN st (fnvHash s)"

definition Virtual :: "OPIC \<Rightarrow> real \<times> real" where
  "Virtual st = (cash_at (history st) 0, cash_at (current st) 0)"

definition Dirty :: "OPIC \<Rightarrow> bool" where
  "Dirty st = dirty st"

text \<open>
  \<^verbatim>\<open>Sums\<close> adds up the values of \<^verbatim>\<open>history\<close> and of \<^verbatim>\<open>current\<close>, each in the map's
  iteration order; in exact arithmetic the order does not matter.
\<close>

definition sum_values :: "(64 word, real) fmap \<Rightarrow> real" where
  "sum_values m = (\<Sum>k \<in> fmdom' m. cash_at m k)"

definition Sums :: "OPIC \<Rightarrow> real \<times> real" where
  "Sums st = (sum_values (history st), sum_values (current st))"

subsection \<open>Estimate\<close>

text \<open>
  \<^verbatim>\<open>t.Sub(u)\<close> of Go's \<^verbatim>\<open>time\<close> package is the difference as a \<^verbatim>\<open>Duration\<close>; a
  difference outside the \<^verbatim>\<open>int64\<close> range of nanoseconds is replaced by the largest
  (or smallest) duration.
\<close>

definition maxDuration :: Duration where
  "maxDuration = 2 ^ 63 - 1"

definition minDuration :: Duration where
  "minDuration = - (2 ^ 63)"

definition time_Sub :: "Time \<Rightarrow> Time \<Rightarrow> Duration" where
  "time_Sub t u =
     (if maxDuration < t - u then maxDuration
      else if t - u < minDuration then minDuration
      else t - u)"

definition EstimateN :: "OPIC \<Rightarrow> 64 word \<Rightarrow> Duration \<Rightarrow> Time \<Rightarrow> real" where
  "EstimateN st v interval t =
     (case GetN st v of (h, c, vt) \<Rightarrow>
        let d = time_Sub t vt in
        if d < interval
        then h * (real_of_int interval - real_of_int d) / real_of_int interval + c
        else c * (real_of_int interval / real_of_int d))"

definition Estimate :: "OPIC \<Rightarrow> string \<Rightarrow> Duration \<Rightarrow> Time \<Rightarrow> real" where
  "Estimate st s interval t = EstimateN st (fnvHash s) interval t"

definition EstimateNV :: "OPIC \<Rightarrow> 64 word list \<Rightarrow> Duration \<Rightarrow> Time \<Rightarrow> real list" where
  "EstimateNV st v interval t = map (\<lambda>n. EstimateN st n interval t) v"

definition EstimateV :: "OPIC \<Rightarrow> string list \<Rightarrow> Duration \<Rightarrow> Time \<Rightarrow> real list" where
  "EstimateV st v interval t = map (\<lambda>n. Estimate st n interval t) v"

text \<open>
  The estimate as the specification words it, for comparison with \<^const>\<open>Estimate\<close>:
  the elapsed time is the plain difference \<open>d = t - clearedAt\<close>.
\<close>

definition Estimate_spec :: "OPIC \<Rightarrow> string \<Rightarrow> Duration \<Rightarrow> Time \<Rightarrow> real" where
  "Estimate_spec st s interval t =
     (let h = cash_at (history st) (fnvHash s);
          c = cash_at (current st) (fnvHash s);
          d = t - time_at (cleared st) (fnvHash s)
      in if d < interval
         then h * (real_of_int interval - real_of_int d) / real_of_int interval + c
         else c * (real_of_int interval / real_of_int d))"

subsection \<open>EnsureBalance\<close>

definition EnsureBalance :: "real \<Rightarrow> OPIC \<Rightarrow> OPIC" where
  "EnsureBalance n st =
     (case Sums st of (r1, r2) \<Rightarrow>
        let st1 = (if r1 + r2 < n
                   then st\<lparr>current :=
                          fmupd 0 (cash_at (current st) 0 + (n - (r1 + r2))) (current st)\<rparr>
                   else st)
        in st1\<lparr>dirty := True\<rparr>)"

section \<open>The binary codec\<close>

type_synonym byte = "8 word"

datatype error =
  EOF | ErrUnexpectedEOF | InvalidMagic | InvalidVersion "64 word"
  | ErrNotExist | ErrExist | ErrCrossDevice

text \<open>Big-endian \<^verbatim>\<open>uint64\<close>: eight bytes, the most significant first.\<close>

definition put_uint64 :: "64 word \<Rightarrow> byte list" where
  "put_uint64 w = map (\<lambda>i. ucast (drop_bit (8 * i) w)) [7, 6, 5, 4, 3, 2, 1, 0]"

definition be_uint64 :: "byte list \<Rightarrow> 64 word" where
  "be_uint64 bs = foldl (\<lambda>acc b. push_bit 8 acc OR ucast b) 0 bs"

text \<open>
  \<^verbatim>\<open>binary.Read\<close> of a fixed-size value fills a buffer with \<^verbatim>\<open>io.ReadFull\<close>: with
  enough input it takes exactly \<open>n\<close> bytes; at the end of the input it fails with
  \<^verbatim>\<open>io.EOF\<close>, and with \<^verbatim>\<open>io.ErrUnexpectedEOF\<close> when the input ends inside the value.
  The reader is the list of bytes not yet read.
\<close>

definition read_bytes :: "nat \<Rightarrow> byte list \<Rightarrow> error + (byte list \<times> byte list)" where
  "read_bytes n r =
     (if n \<le> length r then Inr (take n r, drop n r)
      else if r = [] then Inl EOF
      else Inl ErrUnexpectedEOF)"

definition read_uint64 :: "byte list \<Rightarrow> error + (64 word \<times> byte list)" where
  "read_uint64 r =
     (case read_bytes 8 r of
        Inl e \<Rightarrow> Inl e
      | Inr (bs, r') \<Rightarrow> Inr (be_uint64 bs, r'))"

text \<open>
  \<^verbatim>\<open>expectedMagic\<close>, as bytes.
\<close>

definition expectedMagic :: "byte list" where
  "expectedMagic = map of_char ''#opicdb#''"

text \<open>
  \<^verbatim>\<open>v.Unix()\<close> is the number of whole seconds since the epoch (rounded down), an
  \<^verbatim>\<open>int64\<close>; \<^verbatim>\<open>time.Unix(sec, 0)\<close> is the instant \<open>sec\<close> seconds after the epoch.
\<close>

definition Unix :: "Time \<Rightarrow> 64 word" where
  "Unix t = word_of_int (t div 1000000000)"

definition time_Unix :: "64 word \<Rightarrow> Time" where
  "time_Unix sec = sint sec * 1000000000"

text \<open>
  One of the three entry loops of \<^verbatim>\<open>ReadFrom\<close>: \<open>c\<close> times, read the 16 bytes of
  a key and a value and store the entry.  \<open>dec\<close> turns the 64 bits of the value into
  the map's value type.  The loop returns the error (if any), the rest of the input,
  the byte count and the map as far as it was filled.
\<close>

fun read_entries ::
  "(64 word \<Rightarrow> 'v) \<Rightarrow> nat \<Rightarrow> byte list \<Rightarrow> int \<Rightarrow> (64 word, 'v) fmap
     \<Rightarrow> error option \<times> byte list \<times> int \<times> (64 word, 'v) fmap" where
  "read_entries dec 0 r n m = (None, r, n, m)"
| "read_entries dec (Suc i) r n m =
     (case read_bytes 16 r of
        Inl e \<Rightarrow> (Some e, r, n, m)
      | Inr (bs, r') \<Rightarrow>
          read_entries dec i r' (n + 16)
            (fmupd (be_uint64 (take 8 bs)) (dec (be_uint64 (drop 8 bs))) m))"

text \<open>
  \<^verbatim>\<open>ReadFrom\<close>.  The result is the byte count, the error (\<open>None\<close> for \<^verbatim>\<open>nil\<close>) and
  the ledger, which is updated entry by entry also when the call fails later.
  \<open>frombits\<close> is \<^verbatim>\<open>math.Float64frombits\<close>, the value of a 64-bit pattern read as a
  \<^verbatim>\<open>float64\<close>.  (The source names the map of times \<^verbatim>\<open>fetched\<close> in this file and
  \<^verbatim>\<open>cleared\<close> in opic.go; it is one field.)
\<close>

definition ReadFrom ::
  "(64 word \<Rightarrow> real) \<Rightarrow> OPIC \<Rightarrow> byte list \<Rightarrow> int \<times> error option \<times> OPIC" where
  "ReadFrom frombits st r =
     (case read_bytes 8 r of
        Inl e \<Rightarrow> (0, Some e, st)
      | Inr (magic, r1) \<Rightarrow>
          if magic \<noteq> expectedMagic then (8, Some InvalidMagic, st)
          else (case read_uint64 r1 of
            Inl e \<Rightarrow> (8, Some e, st)
          | Inr (v, r2) \<Rightarrow>
              if v \<noteq> 1 then (16, Some (InvalidVersion v), st)
              else (case read_uint64 r2 of
                Inl e \<Rightarrow> (16, Some e, st)
              | Inr (c1, r3) \<Rightarrow>
                  (case read_entries frombits (unat c1) r3 24 (current st) of
                    (Some e, r4, n4, cur) \<Rightarrow> (n4, Some e, st\<lparr>current := cur\<rparr>)
                  | (None, r4, n4, cur) \<Rightarrow>
                      let st4 = st\<lparr>current := cur\<rparr> in
                      (case read_uint64 r4 of
                        Inl e \<Rightarrow> (n4, Some e, st4)
                      | Inr (c2, r5) \<Rightarrow>
                          (case read_entries frombits (unat c2) r5 (n4 + 8) (history st4) of
                            (Some e, r6, n6, his) \<Rightarrow> (n6, Some e, st4\<lparr>history := his\<rparr>)
                          | (None, r6, n6, his) \<Rightarrow>
                              let st6 = st4\<lparr>history := his\<rparr> in
                              (case read_uint64 r6 of
                                Inl e \<Rightarrow> (n6, Some e, st6)
                              | Inr (c3, r7) \<Rightarrow>
                                  (case read_entries time_Unix (unat c3) r7 (n6 + 8) (cleared st6) of
                                    (Some e, r8, n8, clr) \<Rightarrow> (n8, Some e, st6\<lparr>cleared := clr\<rparr>)
                                  | (None, r8, n8, clr) \<Rightarrow>
                                      (n8, None, st6\<lparr>cleared := clr\<rparr>)))))))))"

text \<open>
  \<^verbatim>\<open>WriteTo\<close> into a writer that does not fail (a \<^verbatim>\<open>bytes.Buffer\<close>): the bytes
  written; the returned count is their number.  Go leaves the order in which
  \<^verbatim>\<open>range\<close> visits a map open, so the three orders are inputs: \<open>kc\<close>, \<open>kh\<close> and
  \<open>kt\<close> list the keys of \<^verbatim>\<open>current\<close>, \<^verbatim>\<open>history\<close> and the times in the order
  visited.  \<open>bits\<close> is \<^verbatim>\<open>math.Float64bits\<close>.
\<close>

definition range_order :: "(64 word, 'v) fmap \<Rightarrow> 64 word list \<Rightarrow> bool" where
  "range_order m ks \<longleftrightarrow> distinct ks \<and> set ks = fmdom' m"

definition write_entries :: "('v \<Rightarrow> 64 word) \<Rightarrow> (64 word, 'v) fmap \<Rightarrow> 64 word list \<Rightarrow> byte list" where
  "write_entries enc m ks =
     concat (map (\<lambda>k. put_uint64 k @ put_uint64 (enc (the (fmlookup m k)))) ks)"

definition WriteTo ::
  "(real \<Rightarrow> 64 word) \<Rightarrow> 64 word list \<Rightarrow> 64 word list \<Rightarrow> 64 word list \<Rightarrow> OPIC \<Rightarrow> byte list" where
  "WriteTo bits kc kh kt st =
     expectedMagic @ put_uint64 1
     @ put_uint64 (of_nat (len (current st))) @ write_entries bits (current st) kc
     @ put_uint64 (of_nat (len (history st))) @ write_entries bits (history st) kh
     @ put_uint64 (of_nat (len (cleared st))) @ write_entries Unix (cleared st) kt"

section \<open>Persistence\<close>

text \<open>
  \<^verbatim>\<open>Persistent\<close> is the ledger with the name of its file.  The file system is the
  content of every existing file, the device (mounted file system) a path lies on, and
  the directory for temporary files (\<^verbatim>\<open>os.TempDir()\<close>).
\<close>

record Persistent =
  opic :: OPIC
  filename :: string

definition NewPersistent :: "string \<Rightarrow> Persistent" where
  "NewPersistent name = \<lparr>opic = New, filename = name\<rparr>"

record filesystem =
  files :: "(string, byte list) fmap"
  device :: "string \<Rightarrow> nat"
  TempDir :: string

text \<open>\<^verbatim>\<open>os.OpenFile(name, os.O_RDONLY, 0644)\<close>, followed by reading the file.\<close>

definition OpenFile :: "filesystem \<Rightarrow> string \<Rightarrow> error + byte list" where
  "OpenFile fs name =
     (case fmlookup (files fs) name of None \<Rightarrow> Inl ErrNotExist | Some bs \<Rightarrow> Inr bs)"

text \<open>
  \<^verbatim>\<open>Load\<close> as persistent.go has it (no options): an error of \<^verbatim>\<open>OpenFile\<close> or of
  \<^verbatim>\<open>ReadFrom\<close> is returned; otherwise the dirty flag is cleared.
\<close>

definition Load :: "(64 word \<Rightarrow> real) \<Rightarrow> filesystem \<Rightarrow> Persistent \<Rightarrow> error option \<times> Persistent" where
  "Load frombits fs p =
     (case OpenFile fs (filename p) of
        Inl err \<Rightarrow> (Some err, p)
      | Inr f \<Rightarrow>
          (case ReadFrom frombits (opic p) f of
            (n, Some err, st) \<Rightarrow> (Some err, p\<lparr>opic := st\<rparr>)
          | (n, None, st) \<Rightarrow> (None, p\<lparr>opic := st\<lparr>dirty := False\<rparr>\<rparr>)))"

record PersistentLoadOptions =
  IgnoreMissing :: bool

text \<open>
  Modelled from the spec: \<^verbatim>\<open>Load\<close> with options, which cmd's \<^verbatim>\<open>main\<close> calls as
  \<^verbatim>\<open>a.Load(&opic.PersistentLoadOptions{IgnoreMissing: true})\<close>; the persistent.go
  among the sources is an earlier one whose \<^verbatim>\<open>Load\<close> takes no options.  The
  specification: "opens the backing file read-only; if the file does not exist, leaves
  the ledger at its current (typically empty) state without error, when the caller opts
  into that tolerance; any other open or decode failure is surfaced.  On success, clears
  the dirty flag."
\<close>

definition LoadWithOptions ::
  "(64 word \<Rightarrow> real) \<Rightarrow> PersistentLoadOptions \<Rightarrow> filesystem \<Rightarrow> Persistent
     \<Rightarrow> error option \<times> Persistent" where
  "LoadWithOptions frombits options fs p =
     (case OpenFile fs (filename p) of
        Inl err \<Rightarrow>
          if err = ErrNotExist \<and> IgnoreMissing options then (None, p) else (Some err, p)
      | Inr f \<Rightarrow>
          (case ReadFrom frombits (opic p) f of
            (n, Some err, st) \<Rightarrow> (Some err, p\<lparr>opic := st\<rparr>)
          | (n, None, st) \<Rightarrow> (None, p\<lparr>opic := st\<lparr>dirty := False\<rparr>\<rparr>)))"

text \<open>
  \<^verbatim>\<open>ioutil.TempFile("", "opic")\<close> creates a new, empty file in the directory for
  temporary files; its name is \<^verbatim>\<open>opic\<close> followed by a random string, here the input
  \<open>rnd\<close>.
\<close>

definition TempFile :: "string \<Rightarrow> filesystem \<Rightarrow> error + (string \<times> filesystem)" where
  "TempFile rnd fs =
     (let name = TempDir fs @ ''/opic'' @ rnd in
      if name \<in> fmdom' (files fs) then Inl ErrExist
      else Inr (name, fs\<lparr>files := fmupd name [] (files fs)\<rparr>))"

definition write_file :: "string \<Rightarrow> byte list \<Rightarrow> filesystem \<Rightarrow> filesystem" where
  "write_file name bs fs =
     fs\<lparr>files := fmupd name (the (fmlookup (files fs) name) @ bs) (files fs)\<rparr>"

text \<open>
  \<^verbatim>\<open>os.Rename(old, new)\<close> replaces \<open>new\<close> by \<open>old\<close> in one step when both lie on
  one device, and fails (\<^verbatim>\<open>EXDEV\<close>, "invalid cross-device link") when they do not.
\<close>

definition Rename :: "string \<Rightarrow> string \<Rightarrow> filesystem \<Rightarrow> error + filesystem" where
  "Rename old new fs =
     (case fmlookup (files fs) old of
        None \<Rightarrow> Inl ErrNotExist
      | Some bs \<Rightarrow>
          if device fs old \<noteq> device fs new then Inl ErrCrossDevice
          else Inr (fs\<lparr>files := fmupd new bs (fmdrop old (files fs))\<rparr>))"

text \<open>
  \<^verbatim>\<open>Save\<close>: the error (if any), the ledger and the file system it leaves.
\<close>

definition Save ::
  "(real \<Rightarrow> 64 word) \<Rightarrow> 64 word list \<Rightarrow> 64 word list \<Rightarrow> 64 word list \<Rightarrow> string
     \<Rightarrow> filesystem \<Rightarrow> Persistent \<Rightarrow> error option \<times> Persistent \<times> filesystem" where
  "Save bits kc kh kt rnd fs p =
     (case TempFile rnd fs of
        Inl err \<Rightarrow> (Some err, p, fs)
      | Inr (name, fs1) \<Rightarrow>
          let fs2 = write_file name (WriteTo bits kc kh kt (opic p)) fs1 in
          (case Rename name (filename p) fs2 of
            Inl err \<Rightarrow> (Some err, p, fs2)
          | Inr fs3 \<Rightarrow> (None, p\<lparr>opic := (opic p)\<lparr>dirty := False\<rparr>\<rparr>, fs3)))"

section \<open>Sequences of calls\<close>

text \<open>
  A run of \<^verbatim>\<open>Distribute\<close> calls, one after the other on the same ledger; a call is
  its clock, source, outputs and time.
\<close>

definition Distribute_all ::
  "((nat \<Rightarrow> Time) \<times> string \<times> string list \<times> Time) list \<Rightarrow> OPIC \<Rightarrow> OPIC" where
  "Distribute_all calls st =
     foldl (\<lambda>st (clock, source, out, t). snd (Distribute clock source out t st)) st calls"

section \<open>A ledger to evaluate on\<close>

text \<open>
  A small ledger: entry 7 with current cash 1, history 1 and cleared 2.5 seconds after
  the epoch, and the virtual entry with current cash 1/2.  With it, the part of
  \<^verbatim>\<open>math.Float64bits\<close> and \<^verbatim>\<open>math.Float64frombits\<close> that its values need: the
  IEEE 754 patterns of 1 and of 1/2.
\<close>

definition example_ledger :: OPIC where
  "example_ledger =
     \<lparr>dirty = True,
      current = fmupd 7 1 (fmupd 0 (1 / 2) fmempty),
      cleared = fmupd 7 2500000000 fmempty,
      history = fmupd 7 1 fmempty\<rparr>"

definition example_bits :: "real \<Rightarrow> 64 word" where
  "example_bits x =
     (if x = 1 then 0x3FF0000000000000 else if x = 1 / 2 then 0x3FE0000000000000 else 0)"

definition example_frombits :: "64 word \<Rightarrow> real" where
  "example_frombits w =
     (if w = 0x3FF0000000000000 then 1 else if w = 0x3FE0000000000000 then 1 / 2 else 0)"

text \<open>
  A file system with the ledger's file on one device and the directory for temporary
  files on another (as where \<^verbatim>\<open>/tmp\<close> is a file system of its own).
\<close>

definition example_filesystem :: filesystem where
  "example_filesystem =
     \<lparr>files = fmupd ''/data/opic.db'' [0x23] fmempty,
      device = (\<lambda>path. if take 5 path = ''/tmp/'' then 1 else 0),
      TempDir = ''/tmp''\<rparr>"

section \<open>Basic facts about the model\<close>

lemma len_fmempty [simp]: "len fmempty = 0"
  by (simp add: len_def)

lemma len_fmupd: "len (fmupd k v m) = (if k \<in> fmdom' m then len m else Suc (len m))"
  by (simp add: len_def insert_absorb)

lemma fnvHash_a: "fnvHash ''a'' = 0xaf63bd4c8601b7be"
  by (simp add: fnvHash_def offset64_def prime64_def)

lemma fnvHash_b: "fnvHash ''b'' = 0xaf63bd4c8601b7bd"
  by (simp add: fnvHash_def offset64_def prime64_def)

lemma fnvHash_c: "fnvHash ''c'' = 0xaf63bd4c8601b7bc"
  by (simp add: fnvHash_def offset64_def prime64_def)

lemmas ledger_defs =
  Initialise_def InitialiseN_def Distribute_def Distribute_credit_def skim_def
  len_fmupd cash_at_def time_at_def New_def Get_def GetN_def Virtual_def

subsection \<open>Sums under the updates of Distribute\<close>

lemma cash_at_fmupd: "cash_at (fmupd k v m) x = (if x = k then v else cash_at m x)"
  by (simp add: cash_at_def)

lemma cash_at_notin: "k \<notin> fmdom' m \<Longrightarrow> cash_at m k = 0"
  by (auto simp: cash_at_def split: option.splits)

lemma sum_values_fmupd: "sum_values (fmupd k v m) = sum_values m - cash_at m k + v"
proof (cases "k \<in> fmdom' m")
  case True
  have "sum_values (fmupd k v m) = (\<Sum>x \<in> fmdom' m. if x = k then v else cash_at m x)"
    using True by (simp add: sum_values_def cash_at_fmupd insert_absorb)
  also have "\<dots> = v + (\<Sum>x \<in> fmdom' m - {k}. if x = k then v else cash_at m x)"
    using True by (simp add: sum.remove)
  also have "(\<Sum>x \<in> fmdom' m - {k}. if x = k then v else cash_at m x)
      = (\<Sum>x \<in> fmdom' m - {k}. cash_at m x)"
    by (rule sum.cong) auto
  also have "\<dots> = sum_values m - cash_at m k"
    using True by (simp add: sum_values_def sum_diff1)
  finally show ?thesis by simp
next
  case False
  have "sum_values (fmupd k v m) = v + (\<Sum>x \<in> fmdom' m. if x = k then v else cash_at m x)"
    using False by (simp add: sum_values_def cash_at_fmupd)
  also have "(\<Sum>x \<in> fmdom' m. if x = k then v else cash_at m x) = (\<Sum>x \<in> fmdom' m. cash_at m x)"
    using False by (intro sum.cong) auto
  finally show ?thesis
    using False by (simp add: sum_values_def cash_at_notin)
qed

lemma sum_values_fmempty [simp]: "sum_values fmempty = 0"
  by (simp add: sum_values_def)

lemma current_Distribute_loop:
  "cash_at (current (Distribute_loop clock share i out st)) k
     = cash_at (current st) k + share * real (count_list (map fnvHash out) k)"
  by (induction out arbitrary: st i) (simp_all add: Let_def cash_at_fmupd algebra_simps)

lemma sum_values_Distribute_loop:
  "sum_values (current (Distribute_loop clock share i out st))
     = sum_values (current st) + share * real (length out)"
  by (induction out arbitrary: st i) (simp_all add: Let_def sum_values_fmupd algebra_simps)

lemma history_Distribute_loop [simp]:
  "history (Distribute_loop clock share i out st) = history st"
  by (induction out arbitrary: st i) (simp_all add: Let_def)

lemma share_sum: "c / real (n + 1) + c / real (n + 1) * real n = c"
proof -
  have nz: "real (n + 1) \<noteq> 0" by simp
  have "c / real (n + 1) + c / real (n + 1) * real n = c / real (n + 1) * real (n + 1)"
    by (simp add: distrib_left)
  also have "\<dots> = c" using nz by (simp del: of_nat_add of_nat_Suc)
  finally show ?thesis .
qed

lemma sum_values_Distribute_credit:
  "sum_values (current (Distribute_credit clock source out st))
     = sum_values (current st) + cash_at (current st) (fnvHash source)"
proof -
  define sh where "sh = cash_at (current st) (fnvHash source) / real (length out + 1)"
  have "Distribute_credit clock source out st
      = Distribute_loop clock sh 0 out
          (st\<lparr>current := fmupd 0 (cash_at (current st) 0 + sh) (current st)\<rparr>)"
    by (simp add: Distribute_credit_def Let_def sh_def)
  then have "sum_values (current (Distribute_credit clock source out st))
      = sum_values (current st) + (sh + sh * real (length out))"
    by (simp add: sum_values_Distribute_loop sum_values_fmupd)
  then show ?thesis
    unfolding sh_def share_sum .
qed

lemma current_Distribute_credit:
  "k \<noteq> 0 \<Longrightarrow> cash_at (current (Distribute_credit clock source out st)) k
     = cash_at (current st) k
       + cash_at (current st) (fnvHash source) / real (length out + 1)
         * real (count_list (map fnvHash out) k)"
  by (simp add: Distribute_credit_def Let_def current_Distribute_loop cash_at_fmupd)

lemma sum_values_Distribute:
  assumes "fnvHash source \<noteq> 0"
  shows "sum_values (current (snd (Distribute clock source out t st)))
     = sum_values (current st)
       - cash_at (current st) (fnvHash source) / real (length out + 1)
         * real (count_list (map fnvHash out) (fnvHash source))"
  using assms
  by (simp add: Distribute_def Let_def sum_values_fmupd cash_at_fmupd sum_values_Distribute_credit
      current_Distribute_credit)

lemma count_list_1: "distinct xs \<Longrightarrow> x \<in> set xs \<Longrightarrow> count_list xs x = 1"
  by (induction xs) auto

lemma sum_values_InitialiseN:
  "distinct ins \<Longrightarrow> set ins \<inter> fmdom' m = {} \<Longrightarrow>
     sum_values (foldl (\<lambda>m u. fmupd u n m) m ins) = sum_values m + real (length ins) * n"
proof (induction ins arbitrary: m)
  case Nil
  then show ?case by simp
next
  case (Cons u ins)
  then have "set ins \<inter> fmdom' (fmupd u n m) = {}" by auto
  with Cons have "sum_values (foldl (\<lambda>m u. fmupd u n m) (fmupd u n m) ins)
      = sum_values (fmupd u n m) + real (length ins) * n"
    by simp
  moreover have "cash_at m u = 0"
    using Cons.prems by (intro cash_at_notin) auto
  ultimately show ?case
    by (simp add: sum_values_fmupd algebra_simps)
qed

lemma Sums_Initialise_New:
  assumes "ins \<noteq> []" "distinct (map fnvHash ins)"
  shows "Sums (Initialise C ins New) = (0, C)"
proof -
  have "real (length ins) \<noteq> 0" using assms by simp
  then show ?thesis
    using assms sum_values_InitialiseN [of "map fnvHash ins" fmempty "C / real (length ins)"]
    by (simp add: Sums_def Initialise_def InitialiseN_def New_def Let_def)
qed

lemma Distribute_all_current:
  assumes "\<forall>(clock, source, out, t) \<in> set calls.
             fnvHash source \<noteq> 0 \<and> fnvHash source \<notin> fnvHash ` set out"
  shows "sum_values (current (Distribute_all calls st)) = sum_values (current st)"
  using assms
proof (induction calls arbitrary: st)
  case Nil
  then show ?case by (simp add: Distribute_all_def)
next
  case (Cons call calls)
  obtain clock source out t where call: "call = (clock, source, out, t)"
    by (cases call) auto
  have nz: "fnvHash source \<noteq> 0" and notin: "fnvHash source \<notin> fnvHash ` set out"
    using Cons.prems call by auto
  have cnt: "count_list (map fnvHash out) (fnvHash source) = 0"
    using notin by (simp add: count_list_0_iff)
  have "Distribute_all (call # calls) st
      = Distribute_all calls (snd (Distribute clock source out t st))"
    by (simp add: Distribute_all_def call)
  moreover have "sum_values (current (Distribute_all calls (snd (Distribute clock source out t st))))
      = sum_values (current (snd (Distribute clock source out t st)))"
    using Cons.prems by (intro Cons.IH) simp
  ultimately show ?case
    using nz cnt by (simp add: sum_values_Distribute)
qed

section \<open>The worked scenario\<close>

text \<open>
  Claim C1.  From the empty ledger, \<^verbatim>\<open>Initialise(3.0, ["a","b","c"])\<close> gives each of
  a, b and c the current cash 1.  The hashes of the three names are pairwise distinct
  and not 0.  \<^verbatim>\<open>Distribute("a", ["b"], t1)\<close> then credits the share 1/2 to the
  virtual entry and to b: after the credits the virtual entry holds 1/2, b holds 3/2
  and the map of current cash has 4 keys, so the skimmed amount is
  \<open>d = (1/2) / (4 + 1) = 1/10\<close>.  In the final state the virtual entry holds 4/10,
  a has current cash 1/10, history 1 and cleared time \<open>t1\<close>, b still holds 3/2, and
  the call returns 1.
\<close>

theorem scenario_initialise_distribute:
  fixes clock :: "nat \<Rightarrow> Time" and t1 :: Time
  shows "let st0 = Initialise 3 [''a'', ''b'', ''c''] New;
      mid = Distribute_credit clock ''a'' [''b''] st0;
      res = Distribute clock ''a'' [''b''] t1 st0
  in fst (snd (Get st0 ''a'')) = 1 \<and> fst (snd (Get st0 ''b'')) = 1
   \<and> fst (snd (Get st0 ''c'')) = 1
   \<and> fnvHash ''a'' \<noteq> fnvHash ''b'' \<and> fnvHash ''a'' \<noteq> fnvHash ''c''
   \<and> fnvHash ''b'' \<noteq> fnvHash ''c''
   \<and> fnvHash ''a'' \<noteq> 0 \<and> fnvHash ''b'' \<noteq> 0 \<and> fnvHash ''c'' \<noteq> 0
   \<and> snd (Virtual mid) = 1 / 2 \<and> fst (snd (Get mid ''b'')) = 3 / 2
   \<and> len (current mid) = 4 \<and> skim mid = 1 / 10
   \<and> snd (Virtual (snd res)) = 4 / 10
   \<and> Get (snd res) ''a'' = (1, 1 / 10, t1)
   \<and> fst (snd (Get (snd res) ''b'')) = 3 / 2
   \<and> fst res = 1"
  by (simp add: ledger_defs fnvHash_a fnvHash_b fnvHash_c Let_def)

section \<open>Conservation of cash\<close>

text \<open>
  Claim C2, as amended.  The claim is that in every reachable state the sum over all
  entries of \<open>current[k] + history[k]\<close> equals the cash \<open>C\<close> injected by the
  initialisation.  \<^verbatim>\<open>Distribute\<close> overwrites \<^verbatim>\<open>history[source]\<close> with the cash it
  distributes while the sum of \<^verbatim>\<open>current\<close> stays what it was, so the sum with the
  history in it grows.  What the code keeps is the sum of \<^verbatim>\<open>current\<close> alone:
  after \<^verbatim>\<open>Initialise(C, ins)\<close> on the empty ledger, for a non-empty \<open>ins\<close> with pairwise
  distinct hashes, and then any sequence of \<^verbatim>\<open>Distribute\<close> calls whose source has a
  hash that is not 0 and is not the hash of one of its outputs, the sum of all current
  cash is \<open>C\<close> (in exact arithmetic).
\<close>

theorem current_cash_conserved:
  assumes "ins \<noteq> []" and "distinct (map fnvHash ins)"
    and "\<forall>(clock, source, out, t) \<in> set calls.
           fnvHash source \<noteq> 0 \<and> fnvHash source \<notin> fnvHash ` set out"
  shows "snd (Sums (Distribute_all calls (Initialise C ins New))) = C"
  using Distribute_all_current [OF assms(3)] Sums_Initialise_New [OF assms(1,2), of C]
  by (simp add: Sums_def)

text \<open>
  The theorem at \<^verbatim>\<open>Initialise(3, ["a","b","c"])\<close> followed by
  \<^verbatim>\<open>Distribute("a", ["b"], 1)\<close> and \<^verbatim>\<open>Distribute("b", ["c","a"], 3)\<close>.
\<close>

theorem current_cash_conserved_witness:
  "[''a'', ''b'', ''c''] \<noteq> [] \<and> distinct (map fnvHash [''a'', ''b'', ''c''])
   \<and> fnvHash ''a'' \<noteq> 0 \<and> fnvHash ''a'' \<notin> fnvHash ` set [''b'']
   \<and> fnvHash ''b'' \<noteq> 0 \<and> fnvHash ''b'' \<notin> fnvHash ` set [''c'', ''a'']
   \<and> snd (Sums (Distribute_all [(\<lambda>i. 0, ''a'', [''b''], 1), (\<lambda>i. 2, ''b'', [''c'', ''a''], 3)]
        (Initialise 3 [''a'', ''b'', ''c''] New))) = 3"
  using current_cash_conserved [of "[''a'', ''b'', ''c'']"
      "[(\<lambda>i. 0, ''a'', [''b''], 1), (\<lambda>i. 2, ''b'', [''c'', ''a''], 3)]" 3]
  by (simp add: fnvHash_a fnvHash_b fnvHash_c)

text \<open>
  The claim as stated fails: after \<^verbatim>\<open>Initialise(3, ["a","b","c"])\<close> and
  \<^verbatim>\<open>Distribute("a", ["b"], 0)\<close> the histories sum to 1 and the current cash to 3,
  so the sum of \<open>current[k] + history[k]\<close> is 4, not 3.
\<close>

theorem history_not_conserved_counterexample:
  "Sums (Initialise 3 [''a'', ''b'', ''c''] New) = (0, 3)
   \<and> Sums (snd (Distribute (\<lambda>i. 0) ''a'' [''b''] 0 (Initialise 3 [''a'', ''b'', ''c''] New))) = (1, 3)
   \<and> fst (Sums (snd (Distribute (\<lambda>i. 0) ''a'' [''b''] 0 (Initialise 3 [''a'', ''b'', ''c''] New))))
       + snd (Sums (snd (Distribute (\<lambda>i. 0) ''a'' [''b''] 0 (Initialise 3 [''a'', ''b'', ''c''] New))))
     \<noteq> 3"
proof -
  let ?ini = "Initialise 3 [''a'', ''b'', ''c''] New"
  let ?fin = "snd (Distribute (\<lambda>i. 0) ''a'' [''b''] 0 ?ini)"
  have s: "Sums ?ini = (0, 3)"
    by (rule Sums_Initialise_New) (simp_all add: fnvHash_a fnvHash_b fnvHash_c)
  have "sum_values (current ?fin) = sum_values (current ?ini)"
    by (simp add: sum_values_Distribute fnvHash_a fnvHash_b)
  moreover have "cash_at (current ?ini) (fnvHash ''a'') = 1"
    by (simp add: ledger_defs fnvHash_a fnvHash_b fnvHash_c)
  then have "sum_values (history ?fin) = 1"
    by (simp add: Distribute_def Distribute_credit_def Let_def sum_values_fmupd
        Initialise_def InitialiseN_def New_def) (simp add: cash_at_def)
  ultimately have "Sums ?fin = (1, 3)"
    using s by (simp add: Sums_def)
  with s show ?thesis
    by simp
qed




text \<open>
  Claim C10.  When the source is one of the outputs, the hashes of the outputs being
  pairwise distinct and not 0: the credits give the source its own share, so that it
  holds \<open>c + c/(len(out)+1)\<close> before the skim; that amount is overwritten by the
  skimmed amount \<open>d\<close>, which is the source's final current cash as for any other
  source; and the sum of all current cash falls by the lost share \<open>c/(len(out)+1)\<close>,
  where \<open>c\<close> is the current cash of the source before the call.
\<close>

theorem Distribute_source_among_outputs:
  assumes "source \<in> set out" and "distinct (map fnvHash out)"
    and "\<forall>s \<in> set out. fnvHash s \<noteq> 0"
  shows "let c = cash_at (current st) (fnvHash source);
             mid = Distribute_credit clock source out st;
             st' = snd (Distribute clock source out t st)
         in cash_at (current mid) (fnvHash source) = c + c / real (length out + 1)
          \<and> cash_at (current st') (fnvHash source) = skim mid
          \<and> snd (Sums st') = snd (Sums st) - c / real (length out + 1)"
proof -
  have nz: "fnvHash source \<noteq> 0" using assms(1,3) by auto
  have cnt: "count_list (map fnvHash out) (fnvHash source) = 1"
    using assms(1,2) by (intro count_list_1) auto
  show ?thesis
    using nz cnt
    by (simp add: Let_def Sums_def sum_values_Distribute current_Distribute_credit)
      (simp add: Distribute_def Let_def cash_at_fmupd)
qed

text \<open>
  The theorem at \<^verbatim>\<open>Distribute("a", ["a","b"], 0)\<close> after
  \<^verbatim>\<open>Initialise(3, ["a","b","c"])\<close>: the source holds 1, the share is 1/3.
\<close>

theorem Distribute_source_among_outputs_witness:
  "''a'' \<in> set [''a'', ''b''] \<and> distinct (map fnvHash [''a'', ''b''])
   \<and> fnvHash ''a'' \<noteq> 0 \<and> fnvHash ''b'' \<noteq> 0
   \<and> cash_at (current (Distribute_credit (\<lambda>i. 0) ''a'' [''a'', ''b'']
         (Initialise 3 [''a'', ''b'', ''c''] New))) (fnvHash ''a'') = 1 + 1 / 3
   \<and> cash_at (current (snd (Distribute (\<lambda>i. 0) ''a'' [''a'', ''b''] 0
         (Initialise 3 [''a'', ''b'', ''c''] New)))) (fnvHash ''a'')
       = skim (Distribute_credit (\<lambda>i. 0) ''a'' [''a'', ''b''] (Initialise 3 [''a'', ''b'', ''c''] New))
   \<and> snd (Sums (snd (Distribute (\<lambda>i. 0) ''a'' [''a'', ''b''] 0
         (Initialise 3 [''a'', ''b'', ''c''] New)))) = 3 - 1 / 3"
proof -
  have c: "cash_at (current (Initialise 3 [''a'', ''b'', ''c''] New)) (fnvHash ''a'') = 1"
    by (simp add: ledger_defs fnvHash_a fnvHash_b fnvHash_c)
  have s: "Sums (Initialise 3 [''a'', ''b'', ''c''] New) = (0, 3)"
    by (rule Sums_Initialise_New) (simp_all add: fnvHash_a fnvHash_b fnvHash_c)
  show ?thesis
    using Distribute_source_among_outputs [of "''a''" "[''a'', ''b'']"
        "Initialise 3 [''a'', ''b'', ''c''] New" "\<lambda>i. 0" 0]
    by (simp add: Let_def c c [unfolded fnvHash_a] s fnvHash_a fnvHash_b)
qed

section \<open>Initialise with no identifiers\<close>

text \<open>
  Claim C4, as amended.  The claim is that \<^verbatim>\<open>Initialise\<close> with an empty list of
  identifiers is rejected with an \<^verbatim>\<open>InvalidArgument\<close> error before any shared state
  is changed.  \<^verbatim>\<open>Initialise\<close> has no result and no error to return.  For every cash
  amount and every ledger, the call with the empty list leaves the three maps as they
  are, so no value (finite or not) is stored and the sums are unchanged, and it sets
  the dirty flag.
\<close>

theorem Initialise_empty:
  "Initialise cash [] st = st\<lparr>dirty := True\<rparr>
   \<and> current (Initialise cash [] st) = current st
   \<and> history (Initialise cash [] st) = history st
   \<and> cleared (Initialise cash [] st) = cleared st
   \<and> Sums (Initialise cash [] st) = Sums st"
  by (simp add: Initialise_def InitialiseN_def Sums_def)

text \<open>
  The claim as stated fails: on the new ledger \<^verbatim>\<open>Initialise(1, [])\<close> is not rejected
  with the state untouched; it returns normally, with the dirty flag set.
\<close>

theorem Initialise_empty_counterexample:
  "Initialise 1 [] New = New\<lparr>dirty := True\<rparr> \<and> Initialise 1 [] New \<noteq> New"
  by (simp add: Initialise_def InitialiseN_def New_def)

section \<open>Estimate\<close>

text \<open>
  Claim C5, as amended.  The claim takes the elapsed time to be \<open>d = t - clearedAt\<close>.
  The code takes \<^verbatim>\<open>t.Sub(clearedAt)\<close>, the difference cut off at the largest and the
  smallest \<^verbatim>\<open>Duration\<close>.  For every identifier, with history \<open>h\<close>, current cash \<open>c\<close>
  and cleared time \<open>clearedAt\<close> as \<^verbatim>\<open>Get\<close> returns them, every interval and every
  \<open>t\<close>: with \<open>d = t.Sub(clearedAt)\<close>, \<^verbatim>\<open>Estimate\<close> returns
  \<open>h * (interval - d) / interval + c\<close> when \<open>d < interval\<close> and
  \<open>c * (interval / d)\<close> when \<open>d \<ge> interval\<close>; and whenever \<open>t - clearedAt\<close> is a
  \<^verbatim>\<open>Duration\<close> (it lies between the smallest and the largest) this is the estimate
  of the specification, with \<open>d = t - clearedAt\<close>.
\<close>

theorem Estimate_elapsed_saturates:
  "Estimate st s interval t =
     (let h = fst (Get st s); c = fst (snd (Get st s));
          d = time_Sub t (snd (snd (Get st s)))
      in if d < interval
         then h * (real_of_int interval - real_of_int d) / real_of_int interval + c
         else c * (real_of_int interval / real_of_int d))
   \<and> (minDuration \<le> t - snd (snd (Get st s)) \<and> t - snd (snd (Get st s)) \<le> maxDuration
        \<longrightarrow> Estimate st s interval t = Estimate_spec st s interval t)"
  by (auto simp: Estimate_def EstimateN_def Estimate_spec_def Get_def GetN_def time_Sub_def Let_def)

text \<open>
  The theorem for an identifier cleared at time 5 and observed at time 10 with
  interval 100: the difference is in range, and the estimate is
  \<open>1 * (100 - 5) / 100 + 1/3\<close>.
\<close>

theorem Estimate_elapsed_saturates_witness:
  "minDuration \<le> 10 - snd (snd (Get (snd (Distribute (\<lambda>i. 0) ''a'' [] 5 (Initialise 1 [''a''] New))) ''a''))
   \<and> 10 - snd (snd (Get (snd (Distribute (\<lambda>i. 0) ''a'' [] 5 (Initialise 1 [''a''] New))) ''a'')) \<le> maxDuration
   \<and> Estimate (snd (Distribute (\<lambda>i. 0) ''a'' [] 5 (Initialise 1 [''a''] New))) ''a'' 100 10
      = Estimate_spec (snd (Distribute (\<lambda>i. 0) ''a'' [] 5 (Initialise 1 [''a''] New))) ''a'' 100 10
   \<and> Estimate_spec (snd (Distribute (\<lambda>i. 0) ''a'' [] 5 (Initialise 1 [''a''] New))) ''a'' 100 10
      = 1 * (100 - 5) / 100 + 1 / 3"
proof -
  have t: "snd (snd (Get (snd (Distribute (\<lambda>i. 0) ''a'' [] 5 (Initialise 1 [''a''] New))) ''a'')) = 5"
    by (simp add: ledger_defs fnvHash_a Let_def)
  have r: "minDuration \<le> 10 - 5 \<and> (10 - 5 :: int) \<le> maxDuration"
    by (simp add: minDuration_def maxDuration_def)
  have v: "Estimate_spec (snd (Distribute (\<lambda>i. 0) ''a'' [] 5 (Initialise 1 [''a''] New))) ''a'' 100 10
      = 1 * (100 - 5) / 100 + 1 / 3"
    by (simp add: Estimate_spec_def ledger_defs fnvHash_a Let_def)
  show ?thesis
    using Estimate_elapsed_saturates [of "snd (Distribute (\<lambda>i. 0) ''a'' [] 5 (Initialise 1 [''a''] New))"
        "''a''" 100 10] r v
    by (simp add: t)
qed

text \<open>
  The claim as stated fails for an identifier that was initialised and never cleared:
  its cleared time is the zero \<^verbatim>\<open>Time\<close> (year 1), and at \<open>t\<close> = 1970-01-01 the
  difference \<open>t - clearedAt\<close> is more than the largest \<^verbatim>\<open>Duration\<close> (about 292
  years).  With an interval of 24 hours the code returns \<open>c * (interval / maxDuration)\<close>,
  not \<open>c * (interval / (t - clearedAt))\<close>.
\<close>

theorem Estimate_never_cleared_counterexample:
  "Get (Initialise 1 [''a''] New) ''a'' = (0, 1, zeroTime)
   \<and> Estimate (Initialise 1 [''a''] New) ''a'' 86400000000000 0
       = 86400000000000 / 9223372036854775807
   \<and> Estimate_spec (Initialise 1 [''a''] New) ''a'' 86400000000000 0
       = 86400000000000 / 62135596800000000000
   \<and> Estimate (Initialise 1 [''a''] New) ''a'' 86400000000000 0
       \<noteq> Estimate_spec (Initialise 1 [''a''] New) ''a'' 86400000000000 0"
  by (simp add: Estimate_def EstimateN_def Estimate_spec_def ledger_defs fnvHash_a Let_def
      time_Sub_def zeroTime_def maxDuration_def minDuration_def)

section \<open>EnsureBalance\<close>

text \<open>
  Claim C6, as amended.  The claim is that \<^verbatim>\<open>EnsureBalance(n)\<close> leaves the ledger
  completely unchanged when the two sums together reach \<open>n\<close>, and otherwise changes
  nothing but the current cash of the virtual entry.  In both cases the code also sets
  the dirty flag.  For every \<open>n\<close> and every ledger: if
  \<open>Sums().history + Sums().current \<ge> n\<close> the call changes nothing but the dirty flag,
  which it sets; otherwise it adds exactly the deficit to the current cash of the
  virtual entry, leaves every other entry of \<^verbatim>\<open>current\<close>, the history and the cleared
  times as they are, sets the dirty flag, and the two sums then add up to \<open>n\<close>.
\<close>

theorem EnsureBalance_effect:
  "(n \<le> fst (Sums st) + snd (Sums st) \<longrightarrow> EnsureBalance n st = st\<lparr>dirty := True\<rparr>)
   \<and> (fst (Sums st) + snd (Sums st) < n \<longrightarrow>
        snd (Virtual (EnsureBalance n st))
          = snd (Virtual st) + (n - (fst (Sums st) + snd (Sums st)))
        \<and> (\<forall>k. k \<noteq> 0 \<longrightarrow> fmlookup (current (EnsureBalance n st)) k = fmlookup (current st) k)
        \<and> history (EnsureBalance n st) = history st
        \<and> cleared (EnsureBalance n st) = cleared st
        \<and> dirty (EnsureBalance n st)
        \<and> fst (Sums (EnsureBalance n st)) + snd (Sums (EnsureBalance n st)) = n)"
  by (auto simp: EnsureBalance_def Sums_def Virtual_def Let_def cash_at_fmupd sum_values_fmupd)

text \<open>
  The theorem on the ledger after \<^verbatim>\<open>Initialise(3, ["a","b","c"])\<close>, whose sums are 0
  and 3: \<^verbatim>\<open>EnsureBalance(2)\<close> only sets the dirty flag; \<^verbatim>\<open>EnsureBalance(5)\<close> adds 2
  to the virtual entry, leaves a alone, and the sums add up to 5.
\<close>

theorem EnsureBalance_effect_witness:
  "2 \<le> fst (Sums (Initialise 3 [''a'', ''b'', ''c''] New))
         + snd (Sums (Initialise 3 [''a'', ''b'', ''c''] New))
   \<and> EnsureBalance 2 (Initialise 3 [''a'', ''b'', ''c''] New)
       = (Initialise 3 [''a'', ''b'', ''c''] New)\<lparr>dirty := True\<rparr>
   \<and> fst (Sums (Initialise 3 [''a'', ''b'', ''c''] New))
         + snd (Sums (Initialise 3 [''a'', ''b'', ''c''] New)) < 5
   \<and> snd (Virtual (EnsureBalance 5 (Initialise 3 [''a'', ''b'', ''c''] New))) = 2
   \<and> fmlookup (current (EnsureBalance 5 (Initialise 3 [''a'', ''b'', ''c''] New))) (fnvHash ''a'')
       = fmlookup (current (Initialise 3 [''a'', ''b'', ''c''] New)) (fnvHash ''a'')
   \<and> fst (Sums (EnsureBalance 5 (Initialise 3 [''a'', ''b'', ''c''] New)))
         + snd (Sums (EnsureBalance 5 (Initialise 3 [''a'', ''b'', ''c''] New))) = 5"
proof -
  have s: "Sums (Initialise 3 [''a'', ''b'', ''c''] New) = (0, 3)"
    by (rule Sums_Initialise_New) (simp_all add: fnvHash_a fnvHash_b fnvHash_c)
  have v: "snd (Virtual (Initialise 3 [''a'', ''b'', ''c''] New)) = 0"
    by (simp add: ledger_defs fnvHash_a fnvHash_b fnvHash_c)
  have a: "fnvHash ''a'' \<noteq> 0"
    by (simp add: fnvHash_a)
  show ?thesis
    using EnsureBalance_effect [of 2 "Initialise 3 [''a'', ''b'', ''c''] New"]
      EnsureBalance_effect [of 5 "Initialise 3 [''a'', ''b'', ''c''] New"] a
    by (simp add: s v)
qed

text \<open>
  The claim as stated fails: on the new ledger the sums are 0, so \<^verbatim>\<open>EnsureBalance(0)\<close>
  has no deficit to add, and yet the ledger it leaves is not the one it found (the
  dirty flag is set).
\<close>

theorem EnsureBalance_counterexample:
  "0 \<le> fst (Sums New) + snd (Sums New) \<and> EnsureBalance 0 New \<noteq> New"
  by (simp add: EnsureBalance_def Sums_def New_def)

section \<open>The codec: reading back what was written\<close>

lemma byte_step:
  "push_bit 8 (drop_bit (m + 8) w) OR ucast (ucast (drop_bit m w) :: byte) = drop_bit m (w :: 64 word)"
proof (rule bit_eqI)
  fix n
  assume "possible_bit TYPE(64 word) n"
  then have n: "n < 64" by (simp add: possible_bit_def)
  show "bit (push_bit 8 (drop_bit (m + 8) w) OR ucast (ucast (drop_bit m w) :: byte)) n
      = bit (drop_bit m w) n"
  proof (cases "n < 8")
    case True
    then show ?thesis using n by (simp add: bit_simps)
  next
    case False
    then have "m + 8 + (n - 8) = m + n" by simp
    then show ?thesis using n False by (simp add: bit_simps)
  qed
qed

lemma be_uint64_put_uint64 [simp]: "be_uint64 (put_uint64 w) = w"
proof -
  have s: "\<And>m. push_bit 8 (drop_bit (m + 8) w) OR ucast (ucast (drop_bit m w) :: byte) = drop_bit m w"
    by (rule byte_step)
  show ?thesis
    unfolding be_uint64_def put_uint64_def
    using s [of 56] s [of 48] s [of 40] s [of 32] s [of 24] s [of 16] s [of 8] s [of 0]
    by simp
qed

lemma length_put_uint64 [simp]: "length (put_uint64 w) = 8"
  by (simp add: put_uint64_def)

lemma read_bytes_append: "length bs = n \<Longrightarrow> read_bytes n (bs @ r) = Inr (bs, r)"
  by (simp add: read_bytes_def)

lemma read_uint64_put [simp]: "read_uint64 (put_uint64 w @ r) = Inr (w, r)"
  by (simp add: read_uint64_def read_bytes_append)

lemma read_entry:
  "read_bytes 16 (put_uint64 k @ put_uint64 v @ r) = Inr (put_uint64 k @ put_uint64 v, r)"
  using read_bytes_append [of "put_uint64 k @ put_uint64 v" 16 r] by simp

lemma read_entries_write_entries:
  "read_entries dec (length ks) (write_entries enc m ks @ r) n acc
     = (None, r, n + 16 * int (length ks),
        foldl (\<lambda>a k. fmupd k (dec (enc (the (fmlookup m k)))) a) acc ks)"
proof (induction ks arbitrary: n acc)
  case Nil
  then show ?case by (simp add: write_entries_def)
next
  case (Cons k ks)
  have w: "write_entries enc m (k # ks) @ r
      = put_uint64 k @ put_uint64 (enc (the (fmlookup m k))) @ (write_entries enc m ks @ r)"
    by (simp add: write_entries_def)
  show ?case
    unfolding w by (simp add: read_entry Cons.IH algebra_simps)
qed

lemma fmlookup_foldl_fmupd:
  "fmlookup (foldl (\<lambda>a k. fmupd k (f k) a) acc ks) x
     = (if x \<in> set ks then Some (f x) else fmlookup acc x)"
  by (induction ks arbitrary: acc) auto

lemma foldl_fmupd_range_order:
  assumes "range_order m ks"
  shows "foldl (\<lambda>a k. fmupd k (f (the (fmlookup m k))) a) fmempty ks = fmmap f m"
proof (rule fmap_ext)
  fix x
  show "fmlookup (foldl (\<lambda>a k. fmupd k (f (the (fmlookup m k))) a) fmempty ks) x
      = fmlookup (fmmap f m) x"
    using assms
    by (cases "fmlookup m x")
      (auto simp: fmlookup_foldl_fmupd [where f = "\<lambda>k. f (the (fmlookup m k))"] range_order_def
        fmlookup_dom'_iff)
qed

lemma range_order_length: "range_order m ks \<Longrightarrow> length ks = len m"
  by (auto simp: range_order_def len_def dest: distinct_card)

lemma unat_len: "n < 2 ^ 64 \<Longrightarrow> unat (of_nat n :: 64 word) = n"
  by (simp add: unat_of_nat)

lemma expectedMagic_length [simp]: "length expectedMagic = 8"
  by (simp add: expectedMagic_def)

lemma ReadFrom_WriteTo:
  assumes kc: "range_order (current st) kc" and kh: "range_order (history st) kh"
    and kt: "range_order (cleared st) kt"
    and lc: "len (current st) < 2 ^ 64" and lh: "len (history st) < 2 ^ 64"
    and lt: "len (cleared st) < 2 ^ 64"
  shows "ReadFrom frombits New (WriteTo bits kc kh kt st)
     = (int (length (WriteTo bits kc kh kt st)), None,
        \<lparr>dirty = False,
         current = fmmap (\<lambda>v. frombits (bits v)) (current st),
         cleared = fmmap (\<lambda>t. time_Unix (Unix t)) (cleared st),
         history = fmmap (\<lambda>v. frombits (bits v)) (history st)\<rparr>)"
proof -
  let ?E3 = "write_entries Unix (cleared st) kt"
  let ?R3 = "put_uint64 (of_nat (len (cleared st))) @ ?E3"
  let ?E2 = "write_entries bits (history st) kh"
  let ?R2 = "put_uint64 (of_nat (len (history st))) @ ?E2 @ ?R3"
  let ?E1 = "write_entries bits (current st) kc"
  let ?R1 = "put_uint64 (of_nat (len (current st))) @ ?E1 @ ?R2"
  have W: "WriteTo bits kc kh kt st = expectedMagic @ put_uint64 1 @ ?R1"
    by (simp add: WriteTo_def)
  have magic: "read_bytes 8 (expectedMagic @ put_uint64 1 @ ?R1) = Inr (expectedMagic, put_uint64 1 @ ?R1)"
    by (rule read_bytes_append) simp
  have e1: "read_entries frombits (unat (of_nat (len (current st)) :: 64 word)) (?E1 @ ?R2) 24 fmempty
      = (None, ?R2, 24 + 16 * int (length kc), fmmap (\<lambda>v. frombits (bits v)) (current st))"
    using read_entries_write_entries [of frombits kc bits "current st" ?R2 24 fmempty]
      foldl_fmupd_range_order [OF kc, of "\<lambda>v. frombits (bits v)"]
    by (simp add: unat_len [OF lc] range_order_length [OF kc])
  have e2: "read_entries frombits (unat (of_nat (len (history st)) :: 64 word)) (?E2 @ ?R3) n fmempty
      = (None, ?R3, n + 16 * int (length kh), fmmap (\<lambda>v. frombits (bits v)) (history st))" for n
    using read_entries_write_entries [of frombits kh bits "history st" ?R3 n fmempty]
      foldl_fmupd_range_order [OF kh, of "\<lambda>v. frombits (bits v)"]
    by (simp add: unat_len [OF lh] range_order_length [OF kh])
  have e3: "read_entries time_Unix (unat (of_nat (len (cleared st)) :: 64 word)) ?E3 n fmempty
      = (None, [], n + 16 * int (length kt), fmmap (\<lambda>t. time_Unix (Unix t)) (cleared st))" for n
    using read_entries_write_entries [of time_Unix kt Unix "cleared st" "[]" n fmempty]
      foldl_fmupd_range_order [OF kt, of "\<lambda>t. time_Unix (Unix t)"]
    by (simp add: unat_len [OF lt] range_order_length [OF kt])
  have len_entries: "length (write_entries enc m ks) = 16 * length ks" for enc :: "'v \<Rightarrow> 64 word" and m ks
    by (induction ks) (simp_all add: write_entries_def)
  have n: "int (length (WriteTo bits kc kh kt st))
      = 24 + 16 * int (length kc) + 8 + 16 * int (length kh) + 8 + 16 * int (length kt)"
    by (simp add: W len_entries)
  show ?thesis
    unfolding n unfolding W ReadFrom_def
    by (simp add: magic e1 e2 e3 New_def)
qed

lemma fmmap_id_on:
  assumes "\<forall>k \<in> fmdom' m. f (the (fmlookup m k)) = the (fmlookup m k)"
  shows "fmmap f m = m"
proof (rule fmap_ext)
  fix x
  show "fmlookup (fmmap f m) x = fmlookup m x"
  proof (cases "fmlookup m x")
    case None
    then show ?thesis by simp
  next
    case (Some a)
    then have "x \<in> fmdom' m" by (simp add: fmlookup_dom'_iff)
    with assms have "f (the (fmlookup m x)) = the (fmlookup m x)" by blast
    with Some show ?thesis by simp
  qed
qed

lemma cash_at_the: "k \<in> fmdom' m \<Longrightarrow> the (fmlookup m k) = cash_at m k"
  by (auto simp: cash_at_def fmlookup_dom'_iff)

lemma time_at_fmmap:
  "time_at (fmmap f m) v = (if v \<in> fmdom' m then f (time_at m v) else zeroTime)"
  by (cases "fmlookup m v") (auto simp: time_at_def fmlookup_dom'_iff)

lemma time_Unix_Unix:
  assumes "t mod 1000000000 = 0" and "- (2 ^ 63) \<le> t div 1000000000" and "t div 1000000000 < 2 ^ 63"
  shows "time_Unix (Unix t) = t"
proof -
  have "sint (word_of_int (t div 1000000000) :: 64 word) = t div 1000000000"
    using assms(2,3) by (simp add: sint_sbintrunc' signed_take_bit_int_eq_self)
  moreover have "t div 1000000000 * 1000000000 = t"
    using div_mult_mod_eq [of t 1000000000] assms(1) by simp
  ultimately show ?thesis
    by (simp add: time_Unix_def Unix_def)
qed

lemma example_ReadFrom:
  "ReadFrom example_frombits New (WriteTo example_bits [7, 0] [7] [7] example_ledger)
     = (int (length (WriteTo example_bits [7, 0] [7] [7] example_ledger)), None,
        \<lparr>dirty = False,
         current = fmmap (\<lambda>v. example_frombits (example_bits v)) (current example_ledger),
         cleared = fmmap (\<lambda>t. time_Unix (Unix t)) (cleared example_ledger),
         history = fmmap (\<lambda>v. example_frombits (example_bits v)) (history example_ledger)\<rparr>)"
  by (rule ReadFrom_WriteTo)
    (auto simp: example_ledger_def range_order_def len_fmupd)

text \<open>
  Claim C8, as amended.  The claim is that decoding an encoded ledger into a fresh one
  gives a ledger with identical \<^verbatim>\<open>Get\<close> and \<^verbatim>\<open>Sums\<close> results.  The format
  stores a cleared time as whole Unix seconds, so the time \<^verbatim>\<open>Get\<close> returns comes
  back cut to the second.  For every ledger (each map with fewer than \<open>2^64\<close> keys,
  its cash values being \<^verbatim>\<open>float64\<close> values, which \<open>bits\<close> and \<open>frombits\<close> take to
  their 64 bits and back) and for every order in which the three maps are visited
  while writing: reading the bytes into a new ledger succeeds; \<^verbatim>\<open>Sums\<close> is identical;
  for every key \<^verbatim>\<open>GetN\<close> (and so \<^verbatim>\<open>Get\<close>, which is \<^verbatim>\<open>GetN\<close> at the hash) returns the
  identical history and current cash, and as cleared time
  \<^verbatim>\<open>time.Unix(clearedAt.Unix(), 0)\<close> for a key that has one and the zero time for a
  key that has none; and when every cleared time is a whole number of seconds (in the
  \<^verbatim>\<open>int64\<close> range), all of \<^verbatim>\<open>GetN\<close> is identical.
\<close>

theorem codec_round_trip:
  assumes "range_order (current st) kc" and "range_order (history st) kh"
    and "range_order (cleared st) kt"
    and "len (current st) < 2 ^ 64" and "len (history st) < 2 ^ 64"
    and "len (cleared st) < 2 ^ 64"
    and "\<forall>k \<in> fmdom' (current st). frombits (bits (cash_at (current st) k)) = cash_at (current st) k"
    and "\<forall>k \<in> fmdom' (history st). frombits (bits (cash_at (history st) k)) = cash_at (history st) k"
  shows "case ReadFrom frombits New (WriteTo bits kc kh kt st) of (n, err, st') \<Rightarrow>
           err = None
         \<and> Sums st' = Sums st
         \<and> (\<forall>v. fst (GetN st' v) = fst (GetN st v)
                \<and> fst (snd (GetN st' v)) = fst (snd (GetN st v))
                \<and> snd (snd (GetN st' v))
                    = (if v \<in> fmdom' (cleared st)
                       then time_Unix (Unix (snd (snd (GetN st v)))) else zeroTime))
         \<and> ((\<forall>k \<in> fmdom' (cleared st).
                time_at (cleared st) k mod 1000000000 = 0
                \<and> - (2 ^ 63) \<le> time_at (cleared st) k div 1000000000
                \<and> time_at (cleared st) k div 1000000000 < 2 ^ 63)
             \<longrightarrow> (\<forall>v. GetN st' v = GetN st v))"
proof -
  have c: "fmmap (\<lambda>v. frombits (bits v)) (current st) = current st"
    using assms(7) by (intro fmmap_id_on) (simp add: cash_at_the)
  have h: "fmmap (\<lambda>v. frombits (bits v)) (history st) = history st"
    using assms(8) by (intro fmmap_id_on) (simp add: cash_at_the)
  have t: "time_at (fmmap (\<lambda>t. time_Unix (Unix t)) (cleared st)) v = time_at (cleared st) v"
    if "\<forall>k \<in> fmdom' (cleared st).
                time_at (cleared st) k mod 1000000000 = 0
                \<and> - (2 ^ 63) \<le> time_at (cleared st) k div 1000000000
                \<and> time_at (cleared st) k div 1000000000 < 2 ^ 63" for v
  proof (cases "v \<in> fmdom' (cleared st)")
    case True
    with that have "time_at (cleared st) v mod 1000000000 = 0
                \<and> - (2 ^ 63) \<le> time_at (cleared st) v div 1000000000
                \<and> time_at (cleared st) v div 1000000000 < 2 ^ 63" by blast
    then have "time_Unix (Unix (time_at (cleared st) v)) = time_at (cleared st) v"
      by (intro time_Unix_Unix) simp_all
    with True show ?thesis by (simp add: time_at_fmmap)
  next
    case False
    then have "time_at (cleared st) v = zeroTime"
      by (auto simp: time_at_def split: option.splits)
    with False show ?thesis by (simp add: time_at_fmmap)
  qed
  show ?thesis
    unfolding ReadFrom_WriteTo [OF assms(1-6)] c h
    using t by (simp add: Sums_def GetN_def time_at_fmmap)
qed

text \<open>
  The theorem on the example ledger written in the orders \<open>[0, 7]\<close>, \<open>[7]\<close>,
  \<open>[7]\<close>, and on the same ledger with the cleared time of 7 at 3 seconds, written
  in the orders \<open>[7, 0]\<close>, \<open>[7]\<close>, \<open>[7]\<close>.
\<close>

theorem codec_round_trip_witness:
  "range_order (current example_ledger) [0, 7] \<and> range_order (history example_ledger) [7]
   \<and> range_order (cleared example_ledger) [7]
   \<and> len (current example_ledger) < 2 ^ 64 \<and> len (history example_ledger) < 2 ^ 64
   \<and> len (cleared example_ledger) < 2 ^ 64
   \<and> example_frombits (example_bits 1) = 1 \<and> example_frombits (example_bits (1 / 2)) = 1 / 2
   \<and> fst (snd (ReadFrom example_frombits New
         (WriteTo example_bits [0, 7] [7] [7] example_ledger))) = None
   \<and> Sums (snd (snd (ReadFrom example_frombits New
         (WriteTo example_bits [0, 7] [7] [7] example_ledger)))) = Sums example_ledger
   \<and> fst (GetN (snd (snd (ReadFrom example_frombits New
         (WriteTo example_bits [0, 7] [7] [7] example_ledger)))) 7) = 1
   \<and> fst (snd (GetN (snd (snd (ReadFrom example_frombits New
         (WriteTo example_bits [0, 7] [7] [7] example_ledger)))) 0)) = 1 / 2
   \<and> GetN (snd (snd (ReadFrom example_frombits New
         (WriteTo example_bits [7, 0] [7] [7] (example_ledger\<lparr>cleared := fmupd 7 3000000000 fmempty\<rparr>))))) 7
       = GetN (example_ledger\<lparr>cleared := fmupd 7 3000000000 fmempty\<rparr>) 7"
proof -
  have 1: "range_order (current example_ledger) [0, 7] \<and> range_order (history example_ledger) [7]
   \<and> range_order (cleared example_ledger) [7] \<and> range_order (current example_ledger) [7, 0]"
    by (auto simp: range_order_def example_ledger_def)
  have 2: "len (current example_ledger) < 2 ^ 64 \<and> len (history example_ledger) < 2 ^ 64
   \<and> len (cleared example_ledger) < 2 ^ 64"
    by (simp add: example_ledger_def len_fmupd)
  have 3: "example_frombits (example_bits 1) = 1 \<and> example_frombits (example_bits (1 / 2)) = 1 / 2"
    by (simp add: example_bits_def example_frombits_def)
  have 4: "\<forall>k \<in> fmdom' (current example_ledger).
      example_frombits (example_bits (cash_at (current example_ledger) k)) = cash_at (current example_ledger) k"
    using 3 by (simp add: example_ledger_def cash_at_def)
  have 5: "\<forall>k \<in> fmdom' (history example_ledger).
      example_frombits (example_bits (cash_at (history example_ledger) k)) = cash_at (history example_ledger) k"
    using 3 by (simp add: example_ledger_def cash_at_def)
  have 6: "fst (GetN example_ledger 7) = 1 \<and> fst (snd (GetN example_ledger 0)) = 1 / 2"
    by (simp add: example_ledger_def GetN_def cash_at_def)
  let ?l = "example_ledger\<lparr>cleared := fmupd 7 3000000000 fmempty\<rparr>"
  have 7: "range_order (cleared ?l) [7] \<and> len (cleared ?l) < 2 ^ 64"
    by (simp add: range_order_def len_fmupd)
  have 8: "\<forall>k \<in> fmdom' (cleared ?l).
                time_at (cleared ?l) k mod 1000000000 = 0
                \<and> - (2 ^ 63) \<le> time_at (cleared ?l) k div 1000000000
                \<and> time_at (cleared ?l) k div 1000000000 < 2 ^ 63"
    by (simp add: time_at_def)
  have a: "fst (snd (ReadFrom example_frombits New
         (WriteTo example_bits [0, 7] [7] [7] example_ledger))) = None
   \<and> Sums (snd (snd (ReadFrom example_frombits New
         (WriteTo example_bits [0, 7] [7] [7] example_ledger)))) = Sums example_ledger
   \<and> fst (GetN (snd (snd (ReadFrom example_frombits New
         (WriteTo example_bits [0, 7] [7] [7] example_ledger)))) 7) = 1
   \<and> fst (snd (GetN (snd (snd (ReadFrom example_frombits New
         (WriteTo example_bits [0, 7] [7] [7] example_ledger)))) 0)) = 1 / 2"
    using codec_round_trip [of example_ledger "[0, 7]" "[7]" "[7]" example_frombits example_bits] 1 2 4 5 6
    by (auto split: prod.splits)
  have b: "GetN (snd (snd (ReadFrom example_frombits New (WriteTo example_bits [7, 0] [7] [7] ?l)))) 7
       = GetN ?l 7"
    using codec_round_trip [of ?l "[7, 0]" "[7]" "[7]" example_frombits example_bits] 1 2 4 5 7 8
    by (auto split: prod.splits)
  show ?thesis
    using 1 2 3 a b by blast
qed

text \<open>
  The claim as stated fails on the example ledger, where entry 7 was cleared 2.5
  seconds after the epoch: read back, \<^verbatim>\<open>GetN(7)\<close> gives the cleared time 2 seconds.
\<close>

theorem codec_round_trip_counterexample:
  "snd (snd (GetN (snd (snd (ReadFrom example_frombits New
       (WriteTo example_bits [7, 0] [7] [7] example_ledger)))) 7)) = 2000000000
   \<and> snd (snd (GetN example_ledger 7)) = 2500000000
   \<and> GetN (snd (snd (ReadFrom example_frombits New
       (WriteTo example_bits [7, 0] [7] [7] example_ledger)))) 7 \<noteq> GetN example_ledger 7"
  unfolding example_ReadFrom
  by (simp add: GetN_def time_at_def example_ledger_def time_Unix_def Unix_def)

section \<open>Load and Save\<close>

lemma ReadFrom_dirty:
  "ReadFrom frombits (st\<lparr>dirty := b\<rparr>) r
     = (case ReadFrom frombits st r of (n, e, st') \<Rightarrow> (n, e, st'\<lparr>dirty := b\<rparr>))"
  by (simp add: ReadFrom_def Let_def split: sum.splits prod.splits option.splits)

text \<open>
  Claim C7.  When the backing file does not exist, \<^verbatim>\<open>Load\<close> with the option to
  ignore a missing file returns no error and leaves the ledger as it is; without the
  option it returns the error of the failed open, as the \<^verbatim>\<open>Load\<close> of persistent.go
  does.  When the file exists, \<^verbatim>\<open>Load\<close> with options is the \<^verbatim>\<open>Load\<close> of
  persistent.go, and a load that succeeds leaves the dirty flag cleared.
\<close>

theorem Load_missing_file:
  "(fmlookup (files fs) (filename p) = None \<longrightarrow>
       LoadWithOptions frombits \<lparr>IgnoreMissing = True\<rparr> fs p = (None, p)
     \<and> LoadWithOptions frombits \<lparr>IgnoreMissing = False\<rparr> fs p = (Some ErrNotExist, p)
     \<and> Load frombits fs p = (Some ErrNotExist, p))
   \<and> (fmlookup (files fs) (filename p) \<noteq> None \<longrightarrow>
       LoadWithOptions frombits options fs p = Load frombits fs p)
   \<and> (fmlookup (files fs) (filename p) \<noteq> None
      \<and> LoadWithOptions frombits options fs p = (None, p') \<longrightarrow> \<not> dirty (opic p'))
   \<and> (Load frombits fs p = (None, p') \<longrightarrow> \<not> dirty (opic p'))"
  by (auto simp: LoadWithOptions_def Load_def OpenFile_def split: option.splits prod.splits)

text \<open>
  The theorem on a file system without \<^verbatim>\<open>opic.db\<close>, and on one where
  \<^verbatim>\<open>opic.db\<close> holds the written example ledger and the ledger loaded into is dirty.
\<close>

theorem Load_missing_file_witness:
  "fmlookup (files example_filesystem) (filename (NewPersistent ''opic.db'')) = None
   \<and> LoadWithOptions example_frombits \<lparr>IgnoreMissing = True\<rparr> example_filesystem
         (NewPersistent ''opic.db'') = (None, NewPersistent ''opic.db'')
   \<and> LoadWithOptions example_frombits \<lparr>IgnoreMissing = False\<rparr> example_filesystem
         (NewPersistent ''opic.db'') = (Some ErrNotExist, NewPersistent ''opic.db'')
   \<and> Load example_frombits example_filesystem (NewPersistent ''opic.db'')
       = (Some ErrNotExist, NewPersistent ''opic.db'')
   \<and> fmlookup (files (example_filesystem\<lparr>files :=
          fmupd ''opic.db'' (WriteTo example_bits [7, 0] [7] [7] example_ledger) fmempty\<rparr>))
        (filename (NewPersistent ''opic.db'')) \<noteq> None
   \<and> fst (LoadWithOptions example_frombits \<lparr>IgnoreMissing = True\<rparr>
         (example_filesystem\<lparr>files :=
            fmupd ''opic.db'' (WriteTo example_bits [7, 0] [7] [7] example_ledger) fmempty\<rparr>)
         ((NewPersistent ''opic.db'')\<lparr>opic := New\<lparr>dirty := True\<rparr>\<rparr>)) = None
   \<and> \<not> dirty (opic (snd (LoadWithOptions example_frombits \<lparr>IgnoreMissing = True\<rparr>
         (example_filesystem\<lparr>files :=
            fmupd ''opic.db'' (WriteTo example_bits [7, 0] [7] [7] example_ledger) fmempty\<rparr>)
         ((NewPersistent ''opic.db'')\<lparr>opic := New\<lparr>dirty := True\<rparr>\<rparr>))))"
proof -
  let ?fs = "example_filesystem\<lparr>files :=
          fmupd ''opic.db'' (WriteTo example_bits [7, 0] [7] [7] example_ledger) fmempty\<rparr>"
  let ?p = "(NewPersistent ''opic.db'')\<lparr>opic := New\<lparr>dirty := True\<rparr>\<rparr>"
  have m: "fmlookup (files example_filesystem) (filename (NewPersistent ''opic.db'')) = None"
    by (simp add: example_filesystem_def NewPersistent_def)
  have e: "fmlookup (files ?fs) (filename ?p) \<noteq> None"
    by (simp add: NewPersistent_def)
  obtain r where r: "LoadWithOptions example_frombits \<lparr>IgnoreMissing = True\<rparr> ?fs ?p = r"
    by simp
  have ok: "fst r = None"
    using r by (auto simp: LoadWithOptions_def OpenFile_def NewPersistent_def ReadFrom_dirty
        example_ReadFrom)
  show ?thesis
    using Load_missing_file [of example_filesystem "NewPersistent ''opic.db''" example_frombits]
      Load_missing_file [of ?fs ?p example_frombits "\<lparr>IgnoreMissing = True\<rparr>" "snd r"] m e r ok
    by (simp add: NewPersistent_def) (metis prod.collapse)
qed

text \<open>
  What \<^verbatim>\<open>Save\<close> leaves behind, the temporary file not being the target itself: when
  it succeeds, the target holds exactly the bytes \<^verbatim>\<open>WriteTo\<close> produced and the dirty
  flag is cleared; when it fails, the target has the content it had and the ledger is
  as it was.  The target never holds part of the bytes.
\<close>

lemma Save_outcome:
  assumes "TempDir fs @ ''/opic'' @ rnd \<noteq> filename p"
  shows "case Save bits kc kh kt rnd fs p of
           (None, p', fs') \<Rightarrow>
             fmlookup (files fs') (filename p) = Some (WriteTo bits kc kh kt (opic p))
             \<and> p' = p\<lparr>opic := (opic p)\<lparr>dirty := False\<rparr>\<rparr>
         | (Some err, p', fs') \<Rightarrow>
             fmlookup (files fs') (filename p) = fmlookup (files fs) (filename p) \<and> p' = p"
  using assms
  by (auto simp: Save_def TempFile_def write_file_def Rename_def Let_def
      split: option.splits if_splits)

text \<open>
  Claim C9.  \<^verbatim>\<open>Save\<close> is to write the ledger to a temporary file on the file system
  of the target and rename it over the target.  The code creates the temporary file
  with \<^verbatim>\<open>ioutil.TempFile("", "opic")\<close>, that is in the directory for temporary files,
  wherever the target is.  On the example file system, where that directory is on
  another device than \<^verbatim>\<open>/data/opic.db\<close>, the rename fails: \<^verbatim>\<open>Save\<close> returns the
  error, the ledger stays dirty, the target keeps its old content and the written
  temporary file is left behind.
\<close>

theorem Save_temporary_file_on_another_device:
  "device example_filesystem ''/tmp/opic1'' \<noteq> device example_filesystem ''/data/opic.db''
   \<and> Save bits kc kh kt ''1'' example_filesystem \<lparr>opic = example_ledger, filename = ''/data/opic.db''\<rparr>
     = (Some ErrCrossDevice, \<lparr>opic = example_ledger, filename = ''/data/opic.db''\<rparr>,
        example_filesystem\<lparr>files :=
          fmupd ''/tmp/opic1'' (WriteTo bits kc kh kt example_ledger) (files example_filesystem)\<rparr>)
   \<and> dirty example_ledger"
  by (simp add: Save_def TempFile_def write_file_def Rename_def example_filesystem_def
      example_ledger_def Let_def)

end
